theory Spec2Isabelle
  imports Main "HOL-Library.Word"
begin

section \<open>Strings of the host language\<close>

text \<open>
  The plugin is TypeScript; its strings are sequences of 16-bit code units, and the
  regular expressions of \<^verbatim>\<open>src/main.ts\<close> carry no \<^verbatim>\<open>u\<close> flag, so they
  read a text code unit by code unit. A text is therefore a list of 16-bit words.
\<close>

type_synonym unit16 = "16 word"
type_synonym jsstring = "unit16 list"

text \<open>A text of ASCII characters, written as a literal, as the list of its code units.\<close>

definition js :: "string \<Rightarrow> jsstring" where
  "js s = map (\<lambda>c. of_nat (of_char c)) s"

definition NL :: unit16 where
  "NL = 0x0A"

text \<open>
  The class \<^verbatim>\<open>\s\<close>: the WhiteSpace and LineTerminator code points of ECMAScript.
  \<^verbatim>\<open>String.prototype.trim\<close> strips the same set.
\<close>

definition isSpace :: "unit16 \<Rightarrow> bool" where
  "isSpace c = (c = 0x09 \<or> c = 0x0A \<or> c = 0x0B \<or> c = 0x0C \<or> c = 0x0D \<or> c = 0x20
     \<or> c = 0xA0 \<or> c = 0x1680 \<or> (0x2000 \<le> c \<and> c \<le> 0x200A)
     \<or> c = 0x2028 \<or> c = 0x2029 \<or> c = 0x202F \<or> c = 0x205F \<or> c = 0x3000 \<or> c = 0xFEFF)"

text \<open>The line terminators, which \<^verbatim>\<open>.\<close> refuses and after which \<^verbatim>\<open>^\<close> holds under the \<^verbatim>\<open>m\<close> flag.\<close>

definition isLineTerminator :: "unit16 \<Rightarrow> bool" where
  "isLineTerminator c = (c = 0x0A \<or> c = 0x0D \<or> c = 0x2028 \<or> c = 0x2029)"

section \<open>Settings\<close>

record settings =
  countOnlyActualWords :: bool
  excludeFrontmatter :: bool

definition DEFAULT_SETTINGS :: settings where
  "DEFAULT_SETTINGS = \<lparr> countOnlyActualWords = True, excludeFrontmatter = True \<rparr>"

section \<open>countWords\<close>

text \<open>
  \<^verbatim>\<open>text.split(/\s+/)\<close>. The split of ECMAScript walks the text; at a position where the
  pattern matches (here: at a white-space unit, the match taking the whole run) it closes
  the current piece and resumes after the match; at the end it closes the last piece.
  The empty text gives one empty piece, a text that starts or ends with white space gives
  an empty first or last piece. \<open>cur\<close> is the piece being read.
\<close>

function splitFrom :: "jsstring \<Rightarrow> jsstring \<Rightarrow> jsstring list" where
  "splitFrom cur [] = [cur]"
| "splitFrom cur (c # cs) =
     (if isSpace c then cur # splitFrom [] (dropWhile isSpace cs)
      else splitFrom (cur @ [c]) cs)"
  by pat_completeness auto
termination
  by (relation "measure (\<lambda>(cur, s). length s)")
     (auto simp: less_Suc_eq_le length_dropWhile_le)

definition split :: "jsstring \<Rightarrow> jsstring list" where
  "split text = splitFrom [] text"

text \<open>The class \<^verbatim>\<open>[a-zA-Z\<close>U+00C0\<^verbatim>\<open>-\<close>U+00FF\<^verbatim>\<open>]\<close> and \<^verbatim>\<open>hasLetter.test(word)\<close>.\<close>

definition letterClass :: "unit16 \<Rightarrow> bool" where
  "letterClass c = ((0x61 \<le> c \<and> c \<le> 0x7A) \<or> (0x41 \<le> c \<and> c \<le> 0x5A) \<or> (0xC0 \<le> c \<and> c \<le> 0xFF))"

definition hasLetter :: "jsstring \<Rightarrow> bool" where
  "hasLetter word = list_ex letterClass word"

definition countWords :: "settings \<Rightarrow> jsstring \<Rightarrow> nat" where
  "countWords st text =
     (if countOnlyActualWords st
      then length (filter (\<lambda>word. hasLetter word) (split text))
      else length (filter (\<lambda>word. length word > 0) (split text)))"

section \<open>removeFrontMatter\<close>

text \<open>
  \<^verbatim>\<open>text.replace(/^---\s*\n(?:.*\n)*?---\s*\n/m, "")\<close>. The pattern is run by a backtracking
  matcher, modelled by the list of its successes: every fragment maps the text still to
  be read to the remainders left by each way the fragment can match, in the order in
  which the matcher tries them (a greedy star the longest first, a lazy star the shortest
  first). The first element of the list for the whole pattern is the match the matcher
  reports.
\<close>

definition thenR ::
  "(jsstring \<Rightarrow> jsstring list) \<Rightarrow> (jsstring \<Rightarrow> jsstring list) \<Rightarrow> jsstring \<Rightarrow> jsstring list" where
  "thenR f g s = concat (map g (f s))"

text \<open>\<^verbatim>\<open>---\<close>\<close>

definition dashes :: "jsstring \<Rightarrow> jsstring list" where
  "dashes s = (if take 3 s = [0x2D, 0x2D, 0x2D] then [drop 3 s] else [])"

text \<open>\<^verbatim>\<open>\s*\<close>, greedy\<close>

fun spaces :: "jsstring \<Rightarrow> jsstring list" where
  "spaces [] = [[]]"
| "spaces (c # cs) = (if isSpace c then spaces cs @ [c # cs] else [c # cs])"

text \<open>\<^verbatim>\<open>\n\<close>\<close>

fun newline :: "jsstring \<Rightarrow> jsstring list" where
  "newline [] = []"
| "newline (c # cs) = (if c = NL then [cs] else [])"

text \<open>\<^verbatim>\<open>.*\<close>, greedy; without the \<^verbatim>\<open>s\<close> flag the dot refuses the line terminators\<close>

fun dots :: "jsstring \<Rightarrow> jsstring list" where
  "dots [] = [[]]"
| "dots (c # cs) = (if isLineTerminator c then [c # cs] else dots cs @ [c # cs])"

text \<open>\<^verbatim>\<open>.*\n\<close>\<close>

definition line :: "jsstring \<Rightarrow> jsstring list" where
  "line = thenR dots newline"

text \<open>\<^verbatim>\<open>(?:.*\n)*?\<close>, lazy: no further line first, then one more line and again\<close>

function lazyLines :: "jsstring \<Rightarrow> jsstring list" where
  "lazyLines s = s # concat (map lazyLines (line s))"
  by pat_completeness auto
termination
proof (relation "measure length")
  show "wf (measure length)" by simp
next
  fix s r :: jsstring
  assume r: "r \<in> set (line s)"
  have dots: "\<And>t u :: jsstring. u \<in> set (dots t) \<Longrightarrow> length u \<le> length t"
  proof -
    fix t u :: jsstring
    show "u \<in> set (dots t) \<Longrightarrow> length u \<le> length t"
      by (induction t arbitrary: u) (auto split: if_splits simp: le_Suc_eq)
  qed
  have newline: "\<And>t u :: jsstring. u \<in> set (newline t) \<Longrightarrow> length u < length t"
  proof -
    fix t u :: jsstring
    show "u \<in> set (newline t) \<Longrightarrow> length u < length t"
      by (cases t) (auto split: if_splits)
  qed
  from r obtain t where "t \<in> set (dots s)" and "r \<in> set (newline t)"
    by (auto simp: line_def thenR_def)
  then have "length r < length s"
    using dots [of t s] newline [of r t] by simp
  then show "(r, s) \<in> measure length" by simp
qed

declare lazyLines.simps [simp del]

text \<open>The pattern after its \<^verbatim>\<open>^\<close>: \<^verbatim>\<open>---\s*\n(?:.*\n)*?---\s*\n\<close>\<close>

definition frontMatterRegex :: "jsstring \<Rightarrow> jsstring list" where
  "frontMatterRegex =
     thenR dashes (thenR spaces (thenR newline (thenR lazyLines
       (thenR dashes (thenR spaces newline)))))"

text \<open>
  \<^verbatim>\<open>replace\<close> with a pattern that has no \<^verbatim>\<open>g\<close> flag: the matcher tries the positions of
  the text from the left, and the first match found is replaced, here by the empty
  string. Under the \<^verbatim>\<open>m\<close> flag \<^verbatim>\<open>^\<close> holds at the start of the text and after every line
  terminator; \<open>bol\<close> says whether it holds at the position reached.
\<close>

fun replaceFrom :: "bool \<Rightarrow> jsstring \<Rightarrow> jsstring" where
  "replaceFrom bol [] = []"
| "replaceFrom bol (c # cs) =
     (case (if bol then frontMatterRegex (c # cs) else []) of
        r # _ \<Rightarrow> r
      | [] \<Rightarrow> c # replaceFrom (isLineTerminator c) cs)"

definition removeFrontMatter :: "jsstring \<Rightarrow> jsstring" where
  "removeFrontMatter text = replaceFrom True text"

section \<open>getWordFrequency\<close>

text \<open>
  \<^verbatim>\<open>word.toLowerCase()\<close>. On a word whose code units all lie in U+0000..U+00FF the
  conversion of Unicode works unit by unit: A to Z, and U+00C0 to U+00DE without the
  multiplication sign U+00D7, move up by 0x20; nothing else changes. For every other word
  the conversion (the Unicode case tables, with their context rules) is the parameter
  \<open>unicodeLower\<close>.
\<close>

definition lowerLatin1 :: "unit16 \<Rightarrow> unit16" where
  "lowerLatin1 c =
     (if (0x41 \<le> c \<and> c \<le> 0x5A) \<or> (0xC0 \<le> c \<and> c \<le> 0xDE \<and> c \<noteq> 0xD7) then c + 0x20 else c)"

definition toLowerCase :: "(jsstring \<Rightarrow> jsstring) \<Rightarrow> jsstring \<Rightarrow> jsstring" where
  "toLowerCase unicodeLower word =
     (if list_all (\<lambda>c. c \<le> 0xFF) word then map lowerLatin1 word else unicodeLower word)"

text \<open>
  \<^verbatim>\<open>const wordFrequency: { [key: string]: number } = {}\<close> is an ordinary object: its own
  properties, kept in the order of their creation, and behind them the properties it
  inherits from \<^verbatim>\<open>Object.prototype\<close>. Reading \<^verbatim>\<open>wordFrequency[key]\<close> finds an own property,
  else an inherited one, else \<^verbatim>\<open>undefined\<close>. The values that the loop can store are
  numbers and, through an inherited property, strings.
\<close>

datatype jsval = Num nat | Txt jsstring

type_synonym jsobject = "(jsstring \<times> jsval) list"

datatype property = Undefined | Own jsval | Method jsstring | ProtoAccessor

text \<open>
  The function-valued properties of \<^verbatim>\<open>Object.prototype\<close>, each with the name of the
  function it holds (\<^verbatim>\<open>constructor\<close> holds \<^verbatim>\<open>Object\<close>); \<^verbatim>\<open>__proto__\<close> is an accessor
  whose getter returns \<^verbatim>\<open>Object.prototype\<close> itself.
\<close>

definition prototypeMethods :: "(jsstring \<times> jsstring) list" where
  "prototypeMethods = map (\<lambda>(key, name). (js key, js name))
     [(''constructor'', ''Object''), (''toString'', ''toString''),
      (''toLocaleString'', ''toLocaleString''), (''valueOf'', ''valueOf''),
      (''hasOwnProperty'', ''hasOwnProperty''), (''isPrototypeOf'', ''isPrototypeOf''),
      (''propertyIsEnumerable'', ''propertyIsEnumerable''),
      (''__defineGetter__'', ''__defineGetter__''), (''__defineSetter__'', ''__defineSetter__''),
      (''__lookupGetter__'', ''__lookupGetter__''), (''__lookupSetter__'', ''__lookupSetter__'')]"

definition getProp :: "jsobject \<Rightarrow> jsstring \<Rightarrow> property" where
  "getProp obj key =
     (case map_of obj key of
        Some v \<Rightarrow> Own v
      | None \<Rightarrow>
          if key = js ''__proto__'' then ProtoAccessor
          else (case map_of prototypeMethods key of
                  Some name \<Rightarrow> Method name
                | None \<Rightarrow> Undefined))"

text \<open>
  \<^verbatim>\<open>(wordFrequency[normalizedWord] || 0) + 1\<close>: \<^verbatim>\<open>undefined\<close>, 0 and the empty string are
  falsy and give 0 + 1; a number gives its successor; a string, a function and an object
  are truthy, and \<^verbatim>\<open>+\<close> with a string, or with an object (which it first turns into a
  string), concatenates.
\<close>

fun plusOne :: "property \<Rightarrow> jsval" where
  "plusOne Undefined = Num 1"
| "plusOne (Own (Num n)) = Num (n + 1)"
| "plusOne (Own (Txt s)) = (if s = [] then Num 1 else Txt (s @ js ''1''))"
| "plusOne (Method name) = Txt (js ''function '' @ name @ js ''() { [native code] }'' @ js ''1'')"
| "plusOne ProtoAccessor = Txt (js ''[object Object]'' @ js ''1'')"

text \<open>
  \<^verbatim>\<open>wordFrequency[normalizedWord] = ...\<close>: the key \<^verbatim>\<open>__proto__\<close> reaches the setter of
  \<^verbatim>\<open>Object.prototype\<close>, which ignores a value that is neither an object nor \<^verbatim>\<open>null\<close>; any
  other key updates the own property or creates it behind the existing ones.
\<close>

definition setProp :: "jsobject \<Rightarrow> jsstring \<Rightarrow> jsval \<Rightarrow> jsobject" where
  "setProp obj key v =
     (if key = js ''__proto__'' then obj
      else if key \<in> fst ` set obj then map (\<lambda>(k, w). if k = key then (k, v) else (k, w)) obj
      else obj @ [(key, v)])"

definition getWordFrequency :: "(jsstring \<Rightarrow> jsstring) \<Rightarrow> settings \<Rightarrow> jsstring \<Rightarrow> jsobject" where
  "getWordFrequency unicodeLower st text =
     (let words =
        (if countOnlyActualWords st
         then filter (\<lambda>word. hasLetter word) (split text)
         else filter (\<lambda>word. length word > 0) (split text))
      in fold (\<lambda>word wordFrequency.
                 let normalizedWord = toLowerCase unicodeLower word
                 in setProp wordFrequency normalizedWord
                      (plusOne (getProp wordFrequency normalizedWord)))
           words [])"

section \<open>WordFrequencyModal.onOpen\<close>

text \<open>
  \<^verbatim>\<open>Object.entries\<close> lists the own properties: first the keys that are array indices (the
  canonical decimal numerals below \<open>2^32 - 1\<close>) in ascending order, then the other keys in
  the order of their creation.
\<close>

definition isDigit :: "unit16 \<Rightarrow> bool" where
  "isDigit c = (0x30 \<le> c \<and> c \<le> 0x39)"

definition decimal :: "jsstring \<Rightarrow> nat" where
  "decimal s = foldl (\<lambda>a c. 10 * a + (unat c - 48)) 0 s"

definition arrayIndex :: "jsstring \<Rightarrow> nat option" where
  "arrayIndex key =
     (if key \<noteq> [] \<and> list_all isDigit key \<and> (key = [0x30] \<or> hd key \<noteq> 0x30)
         \<and> decimal key < 4294967295
      then Some (decimal key) else None)"

definition entries :: "jsobject \<Rightarrow> (jsstring \<times> jsval) list" where
  "entries obj =
     sort_key (\<lambda>(k, v). decimal k) (filter (\<lambda>(k, v). arrayIndex k \<noteq> None) obj)
     @ filter (\<lambda>(k, v). arrayIndex k = None) obj"

text \<open>
  \<^verbatim>\<open>.filter(([_, count]) => count > 1)\<close>: a number passes when it exceeds 1. A string is
  turned into a number first; the strings that the loop of \<open>getWordFrequency\<close> can store
  start with \<^verbatim>\<open>function\<close>, are not numerals, and fail the comparison.
\<close>

fun moreThanOnce :: "jsstring \<times> jsval \<Rightarrow> (jsstring \<times> nat) option" where
  "moreThanOnce (word, Num count) = (if count > 1 then Some (word, count) else None)"
| "moreThanOnce (word, Txt s) = None"

text \<open>
  \<^verbatim>\<open>.sort((a, b) => b[1] - a[1])\<close>: the sort of the engine is stable; the comparison orders
  by falling count.
\<close>

definition sortedWords :: "jsobject \<Rightarrow> (jsstring \<times> nat) list" where
  "sortedWords wordFrequency =
     sort_key (\<lambda>(word, count). - int count) (List.map_filter moreThanOnce (entries wordFrequency))"

section \<open>updateWordCount\<close>

record editor =
  getSelection :: jsstring
  getValue :: jsstring

definition trim :: "jsstring \<Rightarrow> jsstring" where
  "trim s = rev (dropWhile isSpace (rev (dropWhile isSpace s)))"

text \<open>
  The decimal numeral that a template literal prints for a count (a count is bounded by
  the length of a string and stays far below the numbers that are printed differently).
\<close>

function numberToString :: "nat \<Rightarrow> jsstring" where
  "numberToString n =
     (if n < 10 then [0x30 + of_nat n]
      else numberToString (n div 10) @ [0x30 + of_nat (n mod 10)])"
  by pat_completeness auto
termination
  by (relation "measure id") auto

declare numberToString.simps [simp del]

text \<open>
  The text that \<open>updateWordCount\<close> sets on the status bar item; \<open>None\<close> is the case of
  no active Markdown view.
\<close>

definition updateWordCount :: "settings \<Rightarrow> editor option \<Rightarrow> jsstring" where
  "updateWordCount st activeView =
     (case activeView of
        None \<Rightarrow> js ''No editor''
      | Some ed \<Rightarrow>
          let selection = getSelection ed in
          if selection \<noteq> [] \<and> length (trim selection) > 0
          then numberToString (countWords st selection) @ js '' words''
          else
            let text = getValue ed;
                text = (if excludeFrontmatter st then removeFrontMatter text else text)
            in numberToString (countWords st text) @ js '' words'')"

section \<open>The words of a text, as the specification defines them\<close>

text \<open>
  The specification calls a token a maximal run of non-whitespace characters, and the
  token sequence of a text the list of its tokens in order, empty tokens discarded. This
  definition follows those words, not the code: skip the white space, take the run up to
  the next white space, go on behind it.
\<close>

function maximalRuns :: "jsstring \<Rightarrow> jsstring list" where
  "maximalRuns s =
     (case dropWhile isSpace s of
        [] \<Rightarrow> []
      | c # cs \<Rightarrow> takeWhile (\<lambda>x. \<not> isSpace x) (c # cs)
                 # maximalRuns (dropWhile (\<lambda>x. \<not> isSpace x) (c # cs)))"
  by pat_completeness auto
termination
proof (relation "measure length")
  show "wf (measure length)" by simp
next
  fix s :: jsstring and c cs
  assume "dropWhile isSpace s = c # cs"
  then have "length (c # cs) \<le> length s" and "\<not> isSpace c"
    by (metis length_dropWhile_le, metis hd_dropWhile list.sel(1) list.distinct(1))
  moreover have "length (dropWhile (\<lambda>x. \<not> isSpace x) cs) \<le> length cs"
    by (rule length_dropWhile_le)
  ultimately show "(dropWhile (\<lambda>x. \<not> isSpace x) (c # cs), s) \<in> measure length"
    by simp
qed

declare maximalRuns.simps [simp del]

section \<open>Notions for the statements on removeFrontMatter\<close>



text \<open>
  A line that consists solely of \<^verbatim>\<open>---\<close>, with optional trailing white space; a text made of
  lines, each closed by a newline; and a text without its leading lines of white space.
\<close>

definition delimiterLine :: "jsstring \<Rightarrow> bool" where
  "delimiterLine l = (take 3 l = js ''---'' \<and> list_all isSpace (drop 3 l))"

definition unlines :: "jsstring list \<Rightarrow> jsstring" where
  "unlines ls = concat (map (\<lambda>l. l @ [NL]) ls)"



function dropBlankLines :: "jsstring \<Rightarrow> jsstring" where
  "dropBlankLines s =
     (case dropWhile (\<lambda>c. isSpace c \<and> c \<noteq> NL) s of
        [] \<Rightarrow> s
      | c # cs \<Rightarrow> if c = NL then dropBlankLines cs else s)"
  by pat_completeness auto
termination
proof (relation "measure length")
  show "wf (measure length)" by simp
next
  fix s :: jsstring and c cs
  assume "dropWhile (\<lambda>c. isSpace c \<and> c \<noteq> NL) s = c # cs"
  then have "length (c # cs) \<le> length s"
    by (metis length_dropWhile_le)
  then show "(cs, s) \<in> measure length" by simp
qed

declare dropBlankLines.simps [simp del]

section \<open>Properties of countWords\<close>

lemmas countWords_eval =
  countWords_def split_def hasLetter_def letterClass_def isSpace_def js_def

lemma maximalRuns_Nil: "maximalRuns [] = []"
  by (simp add: maximalRuns.simps)

lemma maximalRuns_space: "isSpace c \<Longrightarrow> maximalRuns (c # cs) = maximalRuns cs"
  by (simp add: maximalRuns.simps [of "c # cs"] maximalRuns.simps [of cs])

lemma maximalRuns_dropWhile: "maximalRuns (dropWhile isSpace s) = maximalRuns s"
  by (induction s) (simp_all add: maximalRuns_space)

lemma maximalRuns_word:
  assumes "\<not> isSpace c"
  shows "maximalRuns (c # cs) =
     (c # takeWhile (\<lambda>x. \<not> isSpace x) cs) # maximalRuns (dropWhile (\<lambda>x. \<not> isSpace x) cs)"
  using assms by (simp add: maximalRuns.simps [of "c # cs"])

lemma maximalRuns_run:
  assumes "cur \<noteq> []" "list_all (\<lambda>x. \<not> isSpace x) cur" "s = [] \<or> isSpace (hd s)"
  shows "maximalRuns (cur @ s) = cur # maximalRuns s"
proof -
  obtain c cs where cur: "cur = c # cs" using assms(1) by (cases cur) auto
  have c: "\<not> isSpace c" and cs: "\<forall>x\<in>set cs. \<not> isSpace x"
    using assms(2) by (auto simp: cur list_all_iff)
  have tw: "takeWhile (\<lambda>x. \<not> isSpace x) (cs @ s) = cs"
    using cs assms(3) by (cases s) (auto simp: takeWhile_append)
  have dw: "dropWhile (\<lambda>x. \<not> isSpace x) (cs @ s) = s"
    using cs assms(3) by (cases s) (auto simp: dropWhile_append)
  have "maximalRuns (c # (cs @ s)) = (c # cs) # maximalRuns s"
    using c tw dw by (simp add: maximalRuns_word)
  then show ?thesis by (simp add: cur)
qed

lemma maximalRuns_blank: "list_all isSpace s \<Longrightarrow> maximalRuns s = []"
  by (induction s) (simp_all add: maximalRuns_Nil maximalRuns_space)

text \<open>The pieces of the split that are not empty are the maximal runs.\<close>

lemma splitFrom_runs:
  "list_all (\<lambda>x. \<not> isSpace x) cur \<Longrightarrow>
   filter (\<lambda>word. word \<noteq> []) (splitFrom cur s) = maximalRuns (cur @ s)"
proof (induction cur s rule: splitFrom.induct)
  case (1 cur)
  then show ?case
    using maximalRuns_run [of cur "[]"] by (cases "cur = []") (simp_all add: maximalRuns_Nil)
next
  case (2 cur c cs)
  show ?case
  proof (cases "isSpace c")
    case True
    have rest: "filter (\<lambda>word. word \<noteq> []) (splitFrom [] (dropWhile isSpace cs)) = maximalRuns (c # cs)"
      using "2.IH"(1) [OF True] True by (simp add: maximalRuns_dropWhile maximalRuns_space)
    show ?thesis
    proof (cases "cur = []")
      case True
      then show ?thesis using rest \<open>isSpace c\<close> by simp
    next
      case False
      then show ?thesis
        using rest \<open>isSpace c\<close> "2.prems" maximalRuns_run [of cur "c # cs"] by simp
    qed
  next
    case False
    then show ?thesis using "2.IH"(2) "2.prems" by simp
  qed
qed

lemma hasLetter_nonempty: "hasLetter word \<Longrightarrow> word \<noteq> []"
  by (auto simp: hasLetter_def)

lemma split_runs: "filter (\<lambda>word. word \<noteq> []) (split s) = maximalRuns s"
  using splitFrom_runs [of "[]" s] by (simp add: split_def)

lemma split_letters: "filter hasLetter (split s) = filter hasLetter (maximalRuns s)"
proof -
  have "filter hasLetter (split s) = filter hasLetter (filter (\<lambda>word. word \<noteq> []) (split s))"
    by (simp add: conj_commute) (metis (mono_tags, lifting) filter_cong hasLetter_nonempty)
  then show ?thesis by (simp only: split_runs)
qed

lemma countWords_runs:
  "countWords st s =
     (if countOnlyActualWords st then length (filter hasLetter (maximalRuns s))
      else length (maximalRuns s))"
  by (simp add: countWords_def split_letters split_runs)

lemma length_filter_mono:
  "(\<And>x. P x \<Longrightarrow> Q x) \<Longrightarrow> length (filter P xs) \<le> length (filter Q xs)"
  by (induction xs) auto

lemma hasLetter_iff:
  "hasLetter word = (\<exists>c \<in> set word. 0x61 \<le> c \<and> c \<le> 0x7A \<or> 0x41 \<le> c \<and> c \<le> 0x5A \<or> 0xC0 \<le> c \<and> c \<le> 0xFF)"
  by (simp add: hasLetter_def letterClass_def list_ex_iff)

lemma splitFrom_blank:
  "list_all isSpace s \<Longrightarrow> s \<noteq> [] \<Longrightarrow> splitFrom cur s = [cur, []]"
proof (cases s)
  case Nil
  assume "s \<noteq> []"
  with Nil show ?thesis by simp
next
  case (Cons c cs)
  assume "list_all isSpace s"
  then have c: "isSpace c" and cs: "\<forall>x\<in>set cs. isSpace x"
    using Cons by (simp_all add: list_all_iff)
  have "splitFrom cur (c # cs) = cur # splitFrom [] (dropWhile isSpace cs)"
    using c by simp
  also have "dropWhile isSpace cs = []"
    using cs by simp
  finally show ?thesis using Cons by simp
qed

text \<open>
  C3. \<open>countWords\<close> counts the maximal runs of non-whitespace code units of the text:
  with \<open>countOnlyActualWords\<close> those runs that hold a code unit of the class
  a-z, A-Z, U+00C0-U+00FF, without it all of them. "123 456" has no word with the flag and
  two without it; "cafe naive" written with the accented letters U+00E9 and U+00EF has
  two words with the flag.
\<close>

theorem countWords_counts_tokens:
  "countWords st s =
     (if countOnlyActualWords st
      then length (filter (\<lambda>word. \<exists>c \<in> set word.
              0x61 \<le> c \<and> c \<le> 0x7A \<or> 0x41 \<le> c \<and> c \<le> 0x5A \<or> 0xC0 \<le> c \<and> c \<le> 0xFF)
            (maximalRuns s))
      else length (maximalRuns s))
   \<and> countWords (st\<lparr>countOnlyActualWords := True\<rparr>) (js ''123 456'') = 0
   \<and> countWords (st\<lparr>countOnlyActualWords := False\<rparr>) (js ''123 456'') = 2
   \<and> countWords (st\<lparr>countOnlyActualWords := True\<rparr>)
        (js ''caf'' @ [0xE9] @ js '' na'' @ [0xEF] @ js ''ve'') = 2"
proof -
  have "countWords st s =
     (if countOnlyActualWords st
      then length (filter (\<lambda>word. \<exists>c \<in> set word.
              0x61 \<le> c \<and> c \<le> 0x7A \<or> 0x41 \<le> c \<and> c \<le> 0x5A \<or> 0xC0 \<le> c \<and> c \<le> 0xFF)
            (maximalRuns s))
      else length (maximalRuns s))"
    using countWords_runs [of st s] by (simp add: hasLetter_iff [abs_def])
  moreover have "countWords (st\<lparr>countOnlyActualWords := True\<rparr>) (js ''123 456'') = 0"
    by (simp add: countWords_eval)
  moreover have "countWords (st\<lparr>countOnlyActualWords := False\<rparr>) (js ''123 456'') = 2"
    by (simp add: countWords_eval)
  moreover have "countWords (st\<lparr>countOnlyActualWords := True\<rparr>)
     (js ''caf'' @ [0xE9] @ js '' na'' @ [0xEF] @ js ''ve'') = 2"
    by (simp add: countWords_eval)
  ultimately show ?thesis by blast
qed

text \<open>
  C5. For every text the count without \<open>countOnlyActualWords\<close> is at least the count
  with it: the filter for actual words only removes tokens.
\<close>

theorem countWords_filter_only_removes:
  "countWords (st\<lparr>countOnlyActualWords := True\<rparr>) s
     \<le> countWords (st\<lparr>countOnlyActualWords := False\<rparr>) s"
proof -
  have "length (filter hasLetter (split s)) \<le> length (filter (\<lambda>word. length word > 0) (split s))"
    by (rule length_filter_mono) (auto dest: hasLetter_nonempty)
  then show ?thesis by (simp add: countWords_def)
qed

text \<open>
  C7. \<open>countWords\<close> is a total function (its only loop, the split, is defined with its
  termination proof), and it returns 0 for the empty text and for every text of white
  space only, with either setting, although the split of such a text yields empty
  pieces: one for the empty text, two for a text of white space.
\<close>

theorem countWords_blank_is_zero:
  "list_all isSpace s \<Longrightarrow> countWords st s = 0 \<and> split s = (if s = [] then [[]] else [[], []])"
proof -
  assume blank: "list_all isSpace s"
  have "countWords st s = 0"
    by (simp add: countWords_runs maximalRuns_blank [OF blank])
  moreover have "split s = (if s = [] then [[]] else [[], []])"
    using splitFrom_blank [OF blank, of "[]"] by (simp add: split_def)
  ultimately show ?thesis by simp
qed

theorem countWords_blank_is_zero_witness:
  "list_all isSpace [] \<and> countWords DEFAULT_SETTINGS [] = 0 \<and> split [] = [[]]
   \<and> list_all isSpace (js '' \<newline> '')
   \<and> countWords DEFAULT_SETTINGS (js '' \<newline> '') = 0 \<and> split (js '' \<newline> '') = [[], []]
   \<and> countWords (DEFAULT_SETTINGS\<lparr>countOnlyActualWords := False\<rparr>) (js '' \<newline> '') = 0"
  using countWords_blank_is_zero [of "[]" DEFAULT_SETTINGS]
    countWords_blank_is_zero [of "js '' \<newline> ''" DEFAULT_SETTINGS]
    countWords_blank_is_zero [of "js '' \<newline> ''" "DEFAULT_SETTINGS\<lparr>countOnlyActualWords := False\<rparr>"]
  by (simp add: js_def isSpace_def)

text \<open>
  C10. The class a-z, A-Z, U+00C0-U+00FF of the letter test holds the multiplication sign
  U+00D7 and the division sign U+00F7, which are no letters: with
  \<open>countOnlyActualWords\<close> a text that is one such sign counts as one word.
\<close>

theorem countWords_counts_times_and_division_sign:
  "letterClass 0xD7 \<and> letterClass 0xF7
   \<and> countWords (st\<lparr>countOnlyActualWords := True\<rparr>) [0xD7] = 1
   \<and> countWords (st\<lparr>countOnlyActualWords := True\<rparr>) [0xF7] = 1"
  by (simp add: countWords_eval)

section \<open>Properties of getWordFrequency and of the frequency table\<close>

lemmas getWordFrequency_eval =
  getWordFrequency_def split_def hasLetter_def letterClass_def isSpace_def js_def
  toLowerCase_def lowerLatin1_def getProp_def setProp_def prototypeMethods_def

lemma map_of_setProp_other:
  "k \<noteq> key \<Longrightarrow> map_of (setProp obj key v) k = map_of obj k"
proof -
  assume ne: "k \<noteq> key"
  have "map_of (map (\<lambda>(k', w). if k' = key then (k', v) else (k', w)) obj) k = map_of obj k"
    using ne by (induction obj) auto
  then show ?thesis using ne by (simp add: setProp_def map_add_def split: option.splits)
qed

lemma map_of_setProp_same:
  "key \<noteq> js ''__proto__'' \<Longrightarrow> map_of (setProp obj key v) key = Some v"
proof -
  assume "key \<noteq> js ''__proto__''"
  moreover have "key \<in> fst ` set obj \<Longrightarrow>
      map_of (map (\<lambda>(k', w). if k' = key then (k', v) else (k', w)) obj) key = Some v"
    by (induction obj) auto
  moreover have "key \<notin> fst ` set obj \<Longrightarrow> map_of (obj @ [(key, v)]) key = Some v"
  proof -
    assume "key \<notin> fst ` set obj"
    then have "map_of obj key = None" by (simp add: map_of_eq_None_iff)
    then show ?thesis by (simp add: map_add_def)
  qed
  ultimately show ?thesis by (simp add: setProp_def)
qed

text \<open>
  The loop of \<open>getWordFrequency\<close>, started on any object that holds no string under
  \<open>key\<close>: for a key that \<^verbatim>\<open>Object.prototype\<close> does not define, the loop adds to the
  number under \<open>key\<close> the number of words that \<open>lc\<close> maps to \<open>key\<close>.
\<close>

lemma fold_counts:
  assumes "key \<noteq> js ''__proto__''" "map_of prototypeMethods key = None"
    and "map_of obj key = None \<or> (\<exists>n. map_of obj key = Some (Num n))"
  shows "map_of (fold (\<lambda>word wordFrequency.
                 let normalizedWord = lc word
                 in setProp wordFrequency normalizedWord
                      (plusOne (getProp wordFrequency normalizedWord))) ws obj) key =
     (if filter (\<lambda>word. lc word = key) ws = [] then map_of obj key
      else Some (Num (length (filter (\<lambda>word. lc word = key) ws)
             + (case map_of obj key of Some (Num m) \<Rightarrow> m | _ \<Rightarrow> 0))))"
  using assms(3)
proof (induction ws arbitrary: obj)
  case Nil
  then show ?case by simp
next
  case (Cons w ws)
  let ?obj = "setProp obj (lc w) (plusOne (getProp obj (lc w)))"
  show ?case
  proof (cases "lc w = key")
    case True
    have val: "map_of ?obj key = Some (Num (Suc (case map_of obj key of Some (Num m) \<Rightarrow> m | _ \<Rightarrow> 0)))"
      using Cons.prems assms(1,2) True
      by (auto simp: map_of_setProp_same getProp_def)
    then have "map_of ?obj key = None \<or> (\<exists>n. map_of ?obj key = Some (Num n))"
      by simp
    from Cons.IH [OF this] val True show ?thesis
      by (simp add: Let_def)
  next
    case False
    then have same: "map_of ?obj key = map_of obj key"
      by (simp add: map_of_setProp_other)
    then have "map_of ?obj key = None \<or> (\<exists>n. map_of ?obj key = Some (Num n))"
      using Cons.prems by simp
    from Cons.IH [OF this] same False show ?thesis
      by (simp add: Let_def)
  qed
qed

lemma getWordFrequency_lookup:
  assumes "key \<noteq> js ''__proto__''" "map_of prototypeMethods key = None"
  shows "map_of (getWordFrequency U st s) key =
     (let n = length (filter (\<lambda>word. toLowerCase U word = key)
                (if countOnlyActualWords st then filter hasLetter (maximalRuns s)
                 else maximalRuns s))
      in if n = 0 then None else Some (Num n))"
proof -
  have "map_of [] key = None \<or> (\<exists>n. map_of ([] :: jsobject) key = Some (Num n))"
    by simp
  from fold_counts [OF assms this, of "toLowerCase U"] show ?thesis
    by (simp add: getWordFrequency_def Let_def split_letters split_runs)
qed

lemma keys_setProp:
  "map fst (setProp obj key v) =
     (if key = js ''__proto__'' \<or> key \<in> fst ` set obj then map fst obj else map fst obj @ [key])"
proof -
  have "map fst (map (\<lambda>(k, w). if k = key then (k, v) else (k, w)) obj) = map fst obj"
    by (induction obj) auto
  then show ?thesis by (simp add: setProp_def)
qed

lemma keys_fold:
  "distinct (map fst obj) \<Longrightarrow>
   distinct (map fst (fold (\<lambda>word wordFrequency.
                 let normalizedWord = lc word
                 in setProp wordFrequency normalizedWord
                      (plusOne (getProp wordFrequency normalizedWord))) ws obj))
   \<and> fst ` set (fold (\<lambda>word wordFrequency.
                 let normalizedWord = lc word
                 in setProp wordFrequency normalizedWord
                      (plusOne (getProp wordFrequency normalizedWord))) ws obj)
       = fst ` set obj \<union> (lc ` set ws - {js ''__proto__''})"
proof (induction ws arbitrary: obj)
  case Nil
  then show ?case by simp
next
  case (Cons w ws)
  let ?obj = "setProp obj (lc w) (plusOne (getProp obj (lc w)))"
  have keys: "map fst ?obj =
     (if lc w = js ''__proto__'' \<or> lc w \<in> fst ` set obj then map fst obj else map fst obj @ [lc w])"
    by (rule keys_setProp)
  then have d: "distinct (map fst ?obj)"
    using Cons.prems by auto
  have "fst ` set ?obj = set (map fst ?obj)" by simp
  also have "\<dots> = fst ` set obj \<union> ({lc w} - {js ''__proto__''})"
    unfolding keys by auto
  finally have k: "fst ` set ?obj = fst ` set obj \<union> ({lc w} - {js ''__proto__''})" .
  from Cons.IH [OF d] k show ?case
    by (simp add: Let_def) blast
qed

lemma getWordFrequency_keys:
  "distinct (map fst (getWordFrequency U st s))
   \<and> fst ` set (getWordFrequency U st s)
       = toLowerCase U ` set (if countOnlyActualWords st then filter hasLetter (maximalRuns s)
                             else maximalRuns s) - {js ''__proto__''}"
proof -
  have "distinct (map fst ([] :: jsobject))" by simp
  from keys_fold [OF this, of "toLowerCase U"] show ?thesis
    by (simp add: getWordFrequency_def Let_def split_letters split_runs)
qed

lemma set_entries: "set (entries obj) = set obj"
  by (auto simp: entries_def)

lemma in_map_filter: "(y \<in> set (List.map_filter f xs)) = (\<exists>x \<in> set xs. f x = Some y)"
  by (induction xs) (auto simp: List.map_filter_simps split: option.splits)

lemma moreThanOnce_Some:
  "(moreThanOnce p = Some (word, count)) = (p = (word, Num count) \<and> 1 < count)"
  by (cases p rule: moreThanOnce.cases) auto

lemma set_sortedWords:
  "set (sortedWords obj) = {(word, count). (word, Num count) \<in> set obj \<and> 1 < count}"
proof -
  have "(y \<in> set (sortedWords obj))
      = (y \<in> {(word, count). (word, Num count) \<in> set obj \<and> 1 < count})" for y
  proof (cases y)
    case (Pair word count)
    show ?thesis
      unfolding Pair by (simp add: sortedWords_def in_map_filter set_entries moreThanOnce_Some)
  qed
  then show ?thesis by blast
qed

lemma sorted_sortedWords: "sorted_wrt (\<lambda>a b. snd b \<le> snd a) (sortedWords obj)"
proof -
  have "sorted (map (\<lambda>(word, count). - int count) (sortedWords obj))"
    unfolding sortedWords_def by (rule sorted_sort_key)
  then show ?thesis
    by (simp add: sorted_map case_prod_unfold)
qed

lemma the_cat_frequency:
  "getWordFrequency U st (js ''The the THE cat'') = [(js ''the'', Num 3), (js ''cat'', Num 1)]"
  by (cases "countOnlyActualWords st") (simp_all add: getWordFrequency_eval)

lemma the_cat_sorted: "sortedWords [(js ''the'', Num 3), (js ''cat'', Num 1)] = [(js ''the'', 3)]"
  by (simp add: sortedWords_def entries_def arrayIndex_def isDigit_def js_def
      List.map_filter_simps)

text \<open>
  What the table holds apart from the keys that \<^verbatim>\<open>Object.prototype\<close> defines: its keys are the
  lower-case forms of the surviving tokens (\<^verbatim>\<open>__proto__\<close> never becomes a key), each key once,
  and under a key that \<^verbatim>\<open>Object.prototype\<close> does not define it holds the number of surviving
  tokens whose lower-case form is the key. For "The the THE cat" the table is the: 3,
  cat: 1. The modal keeps the entries whose count exceeds 1 and sorts them by falling
  count, which for that text leaves the: 3.
\<close>

lemma getWordFrequency_ordinary_keys:
  "distinct (map fst (getWordFrequency U st s))
   \<and> fst ` set (getWordFrequency U st s)
       = toLowerCase U ` set (if countOnlyActualWords st then filter hasLetter (maximalRuns s)
                             else maximalRuns s) - {js ''__proto__''}
   \<and> (key \<noteq> js ''__proto__'' \<and> map_of prototypeMethods key = None \<longrightarrow>
      map_of (getWordFrequency U st s) key =
        (let n = length (filter (\<lambda>word. toLowerCase U word = key)
                   (if countOnlyActualWords st then filter hasLetter (maximalRuns s)
                    else maximalRuns s))
         in if n = 0 then None else Some (Num n)))
   \<and> getWordFrequency U st (js ''The the THE cat'') = [(js ''the'', Num 3), (js ''cat'', Num 1)]
   \<and> set (sortedWords obj) = {(word, count). (word, Num count) \<in> set obj \<and> 1 < count}
   \<and> sorted_wrt (\<lambda>a b. snd b \<le> snd a) (sortedWords obj)
   \<and> sortedWords (getWordFrequency U st (js ''The the THE cat'')) = [(js ''the'', 3)]"
  using getWordFrequency_keys [of U st s] getWordFrequency_lookup [of key U st s]
    set_sortedWords [of obj] sorted_sortedWords [of obj] the_cat_frequency [of U st]
    the_cat_sorted
  by simp

text \<open>
  C4. The table does not hold an occurrence count for every token. The text
  "Constructor constructor" has two words, which in lower case are the same word; the
  table has the one key "constructor", but under it the text of the function \<^verbatim>\<open>Object\<close>
  followed by "11" and not the number 2, and the modal, which keeps the counts above 1,
  lists nothing.
\<close>

theorem getWordFrequency_constructor_twice:
  "getWordFrequency U st (js ''Constructor constructor'')
     = [(js ''constructor'', Txt (js ''function Object() { [native code] }11''))]
   \<and> sortedWords (getWordFrequency U st (js ''Constructor constructor'')) = []
   \<and> countWords st (js ''Constructor constructor'') = 2"
proof -
  have t: "getWordFrequency U st (js ''Constructor constructor'')
     = [(js ''constructor'', Txt (js ''function Object() { [native code] }11''))]"
    by (cases "countOnlyActualWords st") (simp_all add: getWordFrequency_eval)
  have "sortedWords [(js ''constructor'', Txt (js ''function Object() { [native code] }11''))] = []"
    by (simp add: sortedWords_def entries_def List.map_filter_simps)
  moreover have "countWords st (js ''Constructor constructor'') = 2"
    by (cases "countOnlyActualWords st") (simp_all add: countWords_eval)
  ultimately show ?thesis using t by simp
qed

text \<open>
  C9. The sum of the counts in the table is not the number of counted words for every
  text. A text whose only word is "constructor" has one word, but its table holds under
  that key the text of the function \<^verbatim>\<open>Object\<close> followed by "1", not the number 1; a
  text whose only word is "__proto__" has one word and an empty table.
\<close>

theorem getWordFrequency_inherited_keys:
  "countWords st (js ''constructor'') = 1
   \<and> getWordFrequency U st (js ''constructor'')
       = [(js ''constructor'', Txt (js ''function Object() { [native code] }1''))]
   \<and> countWords st (js ''__proto__'') = 1
   \<and> getWordFrequency U st (js ''__proto__'') = []"
proof -
  have "countWords st (js ''constructor'') = 1 \<and> countWords st (js ''__proto__'') = 1"
    by (cases "countOnlyActualWords st") (simp_all add: countWords_eval)
  moreover have "getWordFrequency U st (js ''constructor'')
       = [(js ''constructor'', Txt (js ''function Object() { [native code] }1''))]"
    by (cases "countOnlyActualWords st") (simp_all add: getWordFrequency_eval)
  moreover have "getWordFrequency U st (js ''__proto__'') = []"
    by (cases "countOnlyActualWords st") (simp_all add: getWordFrequency_eval)
  ultimately show ?thesis by simp
qed

section \<open>Properties of updateWordCount\<close>

lemma trim_blank: "(trim s = []) = list_all isSpace s"
proof -
  have "(trim s = []) = (\<forall>x\<in>set (dropWhile isSpace s). isSpace x)"
    by (simp add: trim_def dropWhile_eq_Nil_conv)
  also have "\<dots> = (dropWhile isSpace s = [])"
  proof (cases "dropWhile isSpace s")
    case Nil
    show ?thesis unfolding Nil by simp
  next
    case (Cons c cs)
    then have "\<not> isSpace c"
      by (metis hd_dropWhile list.sel(1) list.distinct(1))
    then show ?thesis using Cons by auto
  qed
  also have "\<dots> = list_all isSpace s"
    by (simp add: dropWhile_eq_Nil_conv list_all_iff)
  finally show ?thesis .
qed

text \<open>
  C8, as the claim states it, fails: a selection of one blank is not empty, yet the
  status bar shows the count of the whole document, here "2 words" for the document
  "hello world", not the "0 words" of the selection.
\<close>

theorem updateWordCount_blank_selection:
  "js '' '' \<noteq> []
   \<and> updateWordCount DEFAULT_SETTINGS (Some \<lparr>getSelection = js '' '', getValue = js ''hello world''\<rparr>)
       = js ''2 words''
   \<and> numberToString (countWords DEFAULT_SETTINGS (js '' '')) @ js '' words'' = js ''0 words''"
  by code_simp

text \<open>
  C8, amended. When the selection holds a code unit that is not white space, the status
  bar shows the count of the selection as it is, whatever \<open>excludeFrontmatter\<close> says and
  whatever the document holds: \<open>removeFrontMatter\<close> is not applied to it. When the
  selection is empty or white space only, the status bar shows the count of the whole
  document, with its front matter removed if \<open>excludeFrontmatter\<close> is set.
\<close>

theorem updateWordCount_selection:
  "(\<not> list_all isSpace (getSelection ed) \<longrightarrow>
      updateWordCount st (Some ed)
        = numberToString (countWords st (getSelection ed)) @ js '' words'')
   \<and> (list_all isSpace (getSelection ed) \<longrightarrow>
      updateWordCount st (Some ed)
        = numberToString (countWords st
            (if excludeFrontmatter st then removeFrontMatter (getValue ed) else getValue ed))
          @ js '' words'')"
  by (auto simp: updateWordCount_def Let_def trim_blank)

theorem updateWordCount_selection_witness:
  "\<not> list_all isSpace (js ''---\<newline>x\<newline>---\<newline>y'')
   \<and> excludeFrontmatter DEFAULT_SETTINGS
   \<and> removeFrontMatter (js ''---\<newline>x\<newline>---\<newline>y'') = js ''y''
   \<and> updateWordCount DEFAULT_SETTINGS
        (Some \<lparr>getSelection = js ''---\<newline>x\<newline>---\<newline>y'', getValue = js ''a b c''\<rparr>)
       = js ''2 words''
   \<and> list_all isSpace []
   \<and> updateWordCount DEFAULT_SETTINGS
        (Some \<lparr>getSelection = [], getValue = js ''---\<newline>x\<newline>---\<newline>y''\<rparr>)
       = js ''1 words''"
proof -
  have sel: "\<not> list_all isSpace (js ''---\<newline>x\<newline>---\<newline>y'')"
    by (simp add: js_def isSpace_def)
  have fm: "excludeFrontmatter DEFAULT_SETTINGS"
    and rm: "removeFrontMatter (js ''---\<newline>x\<newline>---\<newline>y'') = js ''y''"
    and n2: "numberToString (countWords DEFAULT_SETTINGS (js ''---\<newline>x\<newline>---\<newline>y'')) @ js '' words''
               = js ''2 words''"
    and n1: "numberToString (countWords DEFAULT_SETTINGS (js ''y'')) @ js '' words'' = js ''1 words''"
    by code_simp+
  have "updateWordCount DEFAULT_SETTINGS
        (Some \<lparr>getSelection = js ''---\<newline>x\<newline>---\<newline>y'', getValue = js ''a b c''\<rparr>)
       = js ''2 words''"
    using updateWordCount_selection
      [of "\<lparr>getSelection = js ''---\<newline>x\<newline>---\<newline>y'', getValue = js ''a b c''\<rparr>" DEFAULT_SETTINGS]
      sel n2 by simp
  moreover have "updateWordCount DEFAULT_SETTINGS
        (Some \<lparr>getSelection = [], getValue = js ''---\<newline>x\<newline>---\<newline>y''\<rparr>)
       = js ''1 words''"
    using updateWordCount_selection
      [of "\<lparr>getSelection = [], getValue = js ''---\<newline>x\<newline>---\<newline>y''\<rparr>" DEFAULT_SETTINGS]
      fm rm n1 by simp
  ultimately show ?thesis using sel fm rm by simp
qed

section \<open>Properties of removeFrontMatter\<close>

text \<open>
  C1. A text that does not begin with a front matter block is not always returned
  unchanged: under the \<^verbatim>\<open>m\<close> flag the \<^verbatim>\<open>^\<close> of the pattern holds at every line start, so a
  block between two \<^verbatim>\<open>---\<close> lines in the middle of the text is removed. The text below
  begins with the line "intro".
\<close>

theorem removeFrontMatter_block_in_the_middle:
  "take 3 (js ''intro\<newline>---\<newline>draft\<newline>---\<newline>body'') \<noteq> js ''---''
   \<and> removeFrontMatter (js ''intro\<newline>---\<newline>draft\<newline>---\<newline>body'') = js ''intro\<newline>body''"
  by code_simp

lemma concat_map_concat:
  "concat (map h (concat xss)) = concat (map (\<lambda>xs. concat (map h xs)) xss)"
  by (induction xss) simp_all

lemma thenR_assoc: "thenR (thenR f g) h = thenR f (thenR g h)"
  unfolding thenR_def [abs_def] by (simp add: concat_map_concat comp_def)

lemma isSpace_NL: "isSpace NL"
  by (simp add: isSpace_def NL_def)

lemma isLineTerminator_NL: "isLineTerminator NL"
  by (simp add: isLineTerminator_def NL_def)

lemma dash_not_space: "\<not> isSpace 0x2D"
  by (simp add: isSpace_def)

lemma spacesNewline_Nil: "thenR spaces newline [] = []"
  by (simp add: thenR_def)

lemma spacesNewline_space: "isSpace c \<Longrightarrow> thenR spaces newline (c # cs) = thenR spaces newline cs @ newline (c # cs)"
  by (simp add: thenR_def)

lemma spacesNewline_other: "\<not> isSpace c \<Longrightarrow> thenR spaces newline (c # cs) = []"
  using isSpace_NL by (auto simp: thenR_def)

lemma spacesNewline_skip:
  "list_all isSpace w \<Longrightarrow> NL \<notin> set w \<Longrightarrow> thenR spaces newline (w @ s) = thenR spaces newline s"
  by (induction w) (auto simp: spacesNewline_space)

lemma spacesNewline_NL: "thenR spaces newline (NL # s) = thenR spaces newline s @ [s]"
  by (simp add: spacesNewline_space isSpace_NL)

lemma spacesNewline_blank:
  "list_all isSpace w \<Longrightarrow> \<exists>extra. thenR spaces newline (w @ NL # s) = thenR spaces newline s @ [s] @ extra"
proof (induction w)
  case Nil
  then show ?case by (simp add: spacesNewline_NL)
next
  case (Cons c w)
  then obtain extra where "thenR spaces newline (w @ NL # s) = thenR spaces newline s @ [s] @ extra"
    by auto
  then show ?case using Cons.prems by (simp add: spacesNewline_space)
qed

lemma dropBlankLines_skip:
  "list_all isSpace w \<Longrightarrow> NL \<notin> set w \<Longrightarrow> dropWhile (\<lambda>c. isSpace c \<and> c \<noteq> NL) (w @ s) = dropWhile (\<lambda>c. isSpace c \<and> c \<noteq> NL) s"
  by (induction w) auto

lemma spacesNewline_first: "hd (thenR spaces newline s @ [s]) = dropBlankLines s"
proof (induction s rule: dropBlankLines.induct)
  case (1 s)
  let ?P = "\<lambda>c. isSpace c \<and> c \<noteq> NL"
  have w: "list_all isSpace (takeWhile ?P s)" "NL \<notin> set (takeWhile ?P s)"
    by (auto simp: list_all_iff dest: set_takeWhileD)
  have "thenR spaces newline (takeWhile ?P s @ dropWhile ?P s) = thenR spaces newline (dropWhile ?P s)"
    by (rule spacesNewline_skip [OF w])
  then have skip: "thenR spaces newline s = thenR spaces newline (dropWhile ?P s)"
    by (simp only: takeWhile_dropWhile_id)
  show ?case
  proof (cases "dropWhile ?P s")
    case Nil
    have "thenR spaces newline s = []"
      unfolding skip Nil by (rule spacesNewline_Nil)
    moreover have "dropBlankLines s = s"
      by (subst dropBlankLines.simps) (simp only: Nil list.case)
    ultimately show ?thesis by simp
  next
    case (Cons c cs)
    have "\<not> ?P (hd (dropWhile ?P s))"
      by (rule hd_dropWhile) (simp only: Cons list.distinct not_False_eq_True)
    then have notP: "\<not> ?P c"
      by (simp add: Cons)
    show ?thesis
    proof (cases "c = NL")
      case True
      have "thenR spaces newline s = thenR spaces newline cs @ [cs]"
        unfolding skip Cons True by (rule spacesNewline_NL)
      then have "hd (thenR spaces newline s @ [s]) = hd (thenR spaces newline cs @ [cs])"
        by (cases "thenR spaces newline cs") simp_all
      moreover have "dropBlankLines s = dropBlankLines cs"
        by (subst dropBlankLines.simps) (simp add: Cons True)
      ultimately show ?thesis
        using "1.IH" [OF Cons True] by simp
    next
      case False
      then have "\<not> isSpace c" using notP by simp
      then have "thenR spaces newline s = []"
        unfolding skip Cons by (rule spacesNewline_other)
      moreover have "dropBlankLines s = s"
        by (subst dropBlankLines.simps) (simp only: Cons list.case False if_False)
      ultimately show ?thesis by simp
    qed
  qed
qed


lemma line_skip: "\<not> isLineTerminator c \<Longrightarrow> line (c # cs) = line cs"
  using isLineTerminator_NL by (auto simp: line_def thenR_def)

lemma line_NL: "line (NL # s) = [s]"
  by (simp add: line_def thenR_def isLineTerminator_NL)

lemma line_exact: "\<not> list_ex isLineTerminator l \<Longrightarrow> line (l @ NL # s) = [s]"
  by (induction l) (simp_all add: line_skip line_NL)

lemma lazyLines_line:
  "\<not> list_ex isLineTerminator l \<Longrightarrow> lazyLines (l @ NL # s) = (l @ NL # s) # lazyLines s"
  by (subst lazyLines.simps) (simp add: line_exact)

lemma dashes_then: "thenR dashes g (js ''---'' @ u) = g u"
  by (simp add: thenR_def dashes_def js_def)

lemma closing_delim: "thenR dashes (thenR spaces newline) (js ''---'' @ s) = thenR spaces newline s"
  by (simp add: thenR_def dashes_def js_def)

lemma spacesNewline_nonblank:
  "\<not> list_all isSpace d \<Longrightarrow> NL \<notin> set d \<Longrightarrow> thenR spaces newline (d @ t) = []"
proof (induction d)
  case Nil
  then show ?case by simp
next
  case (Cons c d)
  show ?case
  proof (cases "isSpace c")
    case True
    then have "thenR spaces newline (d @ t) = []"
      using Cons by simp
    then show ?thesis using True Cons.prems by (auto simp: spacesNewline_space)
  next
    case False
    then show ?thesis by (simp add: spacesNewline_other)
  qed
qed

lemma NL_lineTerminator: "\<not> list_ex isLineTerminator l \<Longrightarrow> NL \<notin> set l"
  using isLineTerminator_NL by (auto simp: list_ex_iff)

lemma closing_other:
  assumes "\<not> list_ex isLineTerminator l" "\<not> delimiterLine l"
  shows "thenR dashes (thenR spaces newline) (l @ NL # s) = []"
proof (cases "take 3 (l @ NL # s) = js ''---''")
  case False
  then show ?thesis by (simp add: thenR_def dashes_def js_def)
next
  case True
  have nl: "NL \<notin> set l" by (rule NL_lineTerminator [OF assms(1)])
  have "NL \<notin> set (js ''---'')" by (simp add: js_def NL_def)
  then have "NL \<notin> set (take 3 (l @ NL # s))" using True by simp
  then have len: "3 \<le> length l"
    by (cases "3 - length l") auto
  then have l: "l = js ''---'' @ drop 3 l"
    using True by (metis append_take_drop_id take_append diff_is_0_eq take_0 append_Nil2)
  have "\<not> list_all isSpace (drop 3 l)"
    using assms(2) len True by (simp add: delimiterLine_def)
  moreover have "NL \<notin> set (drop 3 l)"
    using nl by (auto dest: in_set_dropD)
  ultimately have "thenR spaces newline (drop 3 l @ NL # s) = []"
    by (rule spacesNewline_nonblank)
  moreover have "l @ NL # s = js ''---'' @ (drop 3 l @ NL # s)"
    using l by (metis append_assoc)
  ultimately show ?thesis by (simp only: closing_delim)
qed

lemma lazyLines_step:
  "\<not> list_ex isLineTerminator l \<Longrightarrow>
   thenR lazyLines f (l @ NL # s) = f (l @ NL # s) @ thenR lazyLines f s"
  by (simp add: thenR_def lazyLines_line)

lemma lazyLines_head: "\<exists>more. thenR lazyLines f s = f s @ more"
  unfolding thenR_def by (subst lazyLines.simps) simp

lemma unlines_Cons: "unlines (l # ls) @ t = l @ NL # (unlines ls @ t)"
  by (simp add: unlines_def)

lemma lazyLines_lines:
  "\<forall>l\<in>set ls. \<not> list_ex isLineTerminator l \<and> \<not> delimiterLine l \<Longrightarrow>
   thenR lazyLines (thenR dashes (thenR spaces newline)) (unlines ls @ t)
     = thenR lazyLines (thenR dashes (thenR spaces newline)) t"
proof (induction ls)
  case Nil
  show ?case by (simp add: unlines_def)
next
  case (Cons l ls)
  then have l: "\<not> list_ex isLineTerminator l" "\<not> delimiterLine l" by simp_all
  show ?case
    using Cons by (simp only: unlines_Cons lazyLines_step [OF l(1)] closing_other [OF l]) simp
qed

lemma spacesNewline_lines:
  assumes "\<forall>l\<in>set ls. \<not> list_ex isLineTerminator l" "r \<in> set (thenR spaces newline (unlines ls @ js ''---'' @ t))"
  shows "\<exists>ls'. set ls' \<subseteq> set ls \<and> r = unlines ls' @ js ''---'' @ t"
  using assms
proof (induction ls)
  case Nil
  have "thenR spaces newline (js ''---'' @ t) = []"
    by (simp add: js_def spacesNewline_other dash_not_space)
  then show ?case using Nil by (simp add: unlines_def)
next
  case (Cons l ls)
  then have l: "\<not> list_ex isLineTerminator l" by simp
  have nl: "NL \<notin> set l" by (rule NL_lineTerminator [OF l])
  show ?case
  proof (cases "list_all isSpace l")
    case True
    have "thenR spaces newline (unlines (l # ls) @ js ''---'' @ t)
        = thenR spaces newline (unlines ls @ js ''---'' @ t) @ [unlines ls @ js ''---'' @ t]"
      by (simp only: unlines_Cons spacesNewline_skip [OF True nl] spacesNewline_NL)
    then have "r \<in> set (thenR spaces newline (unlines ls @ js ''---'' @ t)) \<or> r = unlines ls @ js ''---'' @ t"
      using Cons.prems(2) by auto
    then show ?thesis
    proof
      assume "r \<in> set (thenR spaces newline (unlines ls @ js ''---'' @ t))"
      with Cons obtain ls' where "set ls' \<subseteq> set ls" "r = unlines ls' @ js ''---'' @ t"
        by auto
      then show ?thesis by (intro exI [of _ ls']) auto
    next
      assume "r = unlines ls @ js ''---'' @ t"
      then show ?thesis by (intro exI [of _ ls]) auto
    qed
  next
    case False
    have "thenR spaces newline (l @ (NL # unlines ls @ js ''---'' @ t)) = []"
      by (rule spacesNewline_nonblank [OF False nl])
    then show ?thesis using Cons.prems(2) by (simp add: unlines_Cons)
  qed
qed

lemma first_of_copies:
  "\<forall>r\<in>set rs. K r = y # tail \<Longrightarrow> \<exists>t. concat (map K rs) @ (y # tail) @ z = y # t"
  by (cases rs) auto

lemma regex_block:
  assumes "list_all isSpace ws1"
    and "\<forall>l\<in>set ls. \<not> list_ex isLineTerminator l \<and> \<not> delimiterLine l"
    and "list_all isSpace ws2"
  shows "\<exists>t. frontMatterRegex (js ''---'' @ ws1 @ [NL] @ unlines ls @ js ''---'' @ ws2 @ [NL] @ rest)
           = dropBlankLines rest # t"
proof -
  let ?K = "thenR lazyLines (thenR dashes (thenR spaces newline))"
  let ?C = "js ''---'' @ ws2 @ NL # rest"
  let ?X = "unlines ls @ ?C"
  obtain e2 where "thenR spaces newline (ws2 @ NL # rest) = thenR spaces newline rest @ [rest] @ e2"
    using spacesNewline_blank [OF assms(3)] by blast
  moreover obtain more where "?K ?C = thenR dashes (thenR spaces newline) ?C @ more"
    using lazyLines_head by blast
  ultimately have "?K ?C = (thenR spaces newline rest @ [rest]) @ e2 @ more"
    by (simp only: closing_delim append_assoc)
  moreover have "thenR spaces newline rest @ [rest] \<noteq> []" by simp
  ultimately obtain tail where KC: "?K ?C = hd (thenR spaces newline rest @ [rest]) # tail"
    by (metis append_Cons list.exhaust_sel)
  then have KC': "?K ?C = dropBlankLines rest # tail"
    by (simp only: spacesNewline_first)
  have KX: "?K ?X = dropBlankLines rest # tail"
    using lazyLines_lines [OF assms(2), of ?C] KC' by simp
  have Kr: "\<forall>r \<in> set (thenR spaces newline ?X). ?K r = dropBlankLines rest # tail"
  proof
    fix r assume "r \<in> set (thenR spaces newline ?X)"
    then obtain ls' where ls': "set ls' \<subseteq> set ls" "r = unlines ls' @ ?C"
      using spacesNewline_lines [of ls r "ws2 @ NL # rest"] assms(2) by auto
    then have "\<forall>l\<in>set ls'. \<not> list_ex isLineTerminator l \<and> \<not> delimiterLine l"
      using assms(2) by auto
    from lazyLines_lines [OF this, of ?C] KC' ls'(2) show "?K r = dropBlankLines rest # tail" by simp
  qed
  obtain e1 where SN1: "thenR spaces newline (ws1 @ NL # ?X) = thenR spaces newline ?X @ [?X] @ e1"
    using spacesNewline_blank [OF assms(1)] by blast
  have re: "frontMatterRegex = thenR dashes (thenR (thenR spaces newline) ?K)"
    by (simp only: frontMatterRegex_def thenR_assoc)
  have "frontMatterRegex (js ''---'' @ ws1 @ NL # ?X) = thenR (thenR spaces newline) ?K (ws1 @ NL # ?X)"
    by (simp only: re dashes_then)
  also have "\<dots> = concat (map ?K (thenR spaces newline ?X)) @ ?K ?X @ concat (map ?K e1)"
    by (simp add: thenR_def [of "thenR spaces newline"] SN1)
  finally have "frontMatterRegex (js ''---'' @ ws1 @ NL # ?X)
      = concat (map ?K (thenR spaces newline ?X)) @ (dropBlankLines rest # tail) @ concat (map ?K e1)"
    by (simp only: KX)
  with first_of_copies [OF Kr] show ?thesis by (metis append_Cons append_Nil)
qed













text \<open>
  C6, as the claim states it, fails. After the closing line the \<^verbatim>\<open>\s*\<close> of the pattern runs on
  over the following lines of white space, so that they are removed with the block: of
  the text behind the block, a blank line and "body", only "body" is left. A closing line
  that ends the text without a newline does not close a block, and neither does any
  line when the lines end in carriage return and newline: both texts are returned
  unchanged.
\<close>

theorem removeFrontMatter_beyond_the_block:
  "removeFrontMatter (js ''---\<newline>title: x\<newline>---\<newline>'' @ js ''\<newline>body'') = js ''body''
   \<and> removeFrontMatter (js ''---\<newline>title: x\<newline>---\<newline>'' @ js ''\<newline>body'') \<noteq> js ''\<newline>body''
   \<and> removeFrontMatter (js ''---\<newline>title: x\<newline>---'') = js ''---\<newline>title: x\<newline>---''
   \<and> removeFrontMatter (js ''---'' @ [0x0D, 0x0A] @ js ''title: x'' @ [0x0D, 0x0A] @ js ''---''
          @ [0x0D, 0x0A] @ js ''body'')
       = js ''---'' @ [0x0D, 0x0A] @ js ''title: x'' @ [0x0D, 0x0A] @ js ''---''
          @ [0x0D, 0x0A] @ js ''body''"
  by code_simp

text \<open>
  C6, amended. Let the text begin with a line that consists solely of \<^verbatim>\<open>---\<close> and optional
  trailing white space, followed by lines that hold no line terminator and are no such
  delimiter line, followed by a delimiter line that is closed by a newline. Then
  \<open>removeFrontMatter\<close> removes the leading block up to and including that first closing
  line, and with it the lines of white space that directly follow the block:
  the result is the rest of the text without its leading lines of white space.
\<close>

theorem removeFrontMatter_leading_block:
  assumes "list_all isSpace ws1"
    and "list_all (\<lambda>l. \<not> list_ex isLineTerminator l \<and> \<not> delimiterLine l) ls"
    and "list_all isSpace ws2"
  shows "removeFrontMatter
           (js ''---'' @ ws1 @ [NL] @ unlines ls @ js ''---'' @ ws2 @ [NL] @ rest)
         = dropBlankLines rest"
proof -
  have lines: "\<forall>l\<in>set ls. \<not> list_ex isLineTerminator l \<and> \<not> delimiterLine l"
    using assms(2) by (simp add: list_all_iff)
  obtain t where t:
    "frontMatterRegex (js ''---'' @ ws1 @ [NL] @ unlines ls @ js ''---'' @ ws2 @ [NL] @ rest)
       = dropBlankLines rest # t"
    using regex_block [OF assms(1) lines assms(3)] by blast
  obtain c cs where c:
    "js ''---'' @ ws1 @ [NL] @ unlines ls @ js ''---'' @ ws2 @ [NL] @ rest = c # cs"
    by (simp add: js_def)
  show ?thesis
    unfolding removeFrontMatter_def c using t [unfolded c] by simp
qed

theorem removeFrontMatter_leading_block_witness:
  "list_all isSpace []
   \<and> list_all (\<lambda>l. \<not> list_ex isLineTerminator l \<and> \<not> delimiterLine l) [js ''title: x'']
   \<and> removeFrontMatter (js ''---\<newline>title: x\<newline>---\<newline>body'') = js ''body''
   \<and> list_all isSpace (js '' '')
   \<and> removeFrontMatter (js ''--- \<newline>title: x\<newline>--- \<newline> \<newline>\<newline>body'') = js ''body''"
proof -
  have hyp: "list_all isSpace []" "list_all isSpace (js '' '')"
    "list_all (\<lambda>l. \<not> list_ex isLineTerminator l \<and> \<not> delimiterLine l) [js ''title: x'']"
    by code_simp+
  have text1: "js ''---'' @ [] @ [NL] @ unlines [js ''title: x''] @ js ''---'' @ [] @ [NL] @ js ''body''
      = js ''---\<newline>title: x\<newline>---\<newline>body''"
    and text2: "js ''---'' @ js '' '' @ [NL] @ unlines [js ''title: x''] @ js ''---'' @ js '' '' @ [NL]
        @ js '' \<newline>\<newline>body''
      = js ''--- \<newline>title: x\<newline>--- \<newline> \<newline>\<newline>body''"
    and rest1: "dropBlankLines (js ''body'') = js ''body''"
    and rest2: "dropBlankLines (js '' \<newline>\<newline>body'') = js ''body''"
    by code_simp+
  have "removeFrontMatter (js ''---\<newline>title: x\<newline>---\<newline>body'') = js ''body''"
    using removeFrontMatter_leading_block [OF hyp(1) hyp(3) hyp(1), of "js ''body''"]
    by (simp only: text1 rest1)
  moreover have "removeFrontMatter (js ''--- \<newline>title: x\<newline>--- \<newline> \<newline>\<newline>body'') = js ''body''"
    using removeFrontMatter_leading_block [OF hyp(2) hyp(3) hyp(2), of "js '' \<newline>\<newline>body''"]
    by (simp only: text2 rest2)
  ultimately show ?thesis using hyp by simp
qed

end
